theory Spec2Isabelle
  imports Complex_Main
begin

section \<open>Actor updates of LEQ: imagined rollouts and their return estimates\<close>

text \<open>
  The development follows \<^verbatim>\<open>src/algos/leq/actor.py\<close>. The functions
  \<^verbatim>\<open>calculate_gae_foward\<close> and \<^verbatim>\<open>calculate_gae_backward\<close> are written per
  sample (the source maps them over the batch with \<^verbatim>\<open>jax.vmap\<close>), so rewards, terminal
  flags, alive-masks and critic values are scalars here. JAX floating-point numbers are
  modelled as the reals, where rounding, infinities and NaN do not exist; the
  lambda-weighted loop is also written over floats with overflow, for the one statement
  that depends on them.

  The collaborators are parameters of every definition:
  \<^item> \<open>split4 k\<close> is \<^verbatim>\<open>jax.random.split(k, 4)\<close>, the four sub-keys of a key;
  \<^item> \<open>model rng s a\<close> is the dynamics model, returning next state, reward, terminal flag
    and an unused fourth component;
  \<^item> \<open>actor s\<close> is \<^verbatim>\<open>get_deter(actor(s))\<close>, the deterministic action at a state;
  \<^item> \<open>critic s a\<close> is the critic's value.
  An action is an array of one fixed shape under elementwise addition; its type is any
  additive monoid, \<^verbatim>\<open>jnp.zeros_like\<close> giving its zero.

  Real division by zero is 0 in HOL and an infinity or NaN in JAX. The only division of
  the return loop is by \<open>1 + lamb * lamb_weight\<close>, which is at least 1 for \<open>lamb \<ge> 0\<close>
  (shown below); the divisions of the reported means are modelled with an explicit
  \<open>None\<close> for a zero denominator.
\<close>

subsection \<open>The trajectory lists of the unroll loop\<close>

record ('k, 's, 'a) trajectory =
  states :: "'s list"
  rewards :: "real list"
  actions :: "'a list"
  mask_weights :: "real list"
  keys :: "'k list"
  q_values :: "real list"

text \<open>One iteration \<open>i\<close> of \<^verbatim>\<open>for i in range(H)\<close> in \<^verbatim>\<open>calculate_gae_foward\<close>.\<close>

definition foward_step ::
  "('k \<Rightarrow> 'k \<times> 'k \<times> 'k \<times> 'k) \<Rightarrow> ('k \<Rightarrow> 's \<Rightarrow> 'a \<Rightarrow> 's \<times> real \<times> real \<times> 'x) \<Rightarrow>
   ('s \<Rightarrow> 'a) \<Rightarrow> ('s \<Rightarrow> 'a \<Rightarrow> real) \<Rightarrow> nat \<Rightarrow>
   ('k, 's, 'a) trajectory \<Rightarrow> ('k, 's, 'a) trajectory" where
  "foward_step split4 model actor critic i t =
     (case split4 (last (keys t)) of (rng1, rng2, rng3, key0) \<Rightarrow>
      case model rng1 (states t ! i) (actions t ! i) of (s_next, rew, terminal, aux) \<Rightarrow>
      let a_next = actor s_next in
        \<lparr> states = states t @ [s_next],
          rewards = rewards t @ [rew],
          actions = actions t @ [a_next],
          mask_weights = mask_weights t @ [mask_weights t ! i * (1 - terminal)],
          keys = keys t @ [key0],
          q_values = q_values t @ [critic s_next a_next] \<rparr>)"

definition foward_init ::
  "('s \<Rightarrow> 'a \<Rightarrow> real) \<Rightarrow> 's \<Rightarrow> 'a \<Rightarrow> 'k \<Rightarrow> ('k, 's, 'a) trajectory" where
  "foward_init critic Robs Ra key0 =
     \<lparr> states = [Robs], rewards = [], actions = [Ra], mask_weights = [1],
       keys = [key0], q_values = [critic Robs Ra] \<rparr>"

definition foward_unroll ::
  "('k \<Rightarrow> 'k \<times> 'k \<times> 'k \<times> 'k) \<Rightarrow> ('k \<Rightarrow> 's \<Rightarrow> 'a \<Rightarrow> 's \<times> real \<times> real \<times> 'x) \<Rightarrow>
   ('s \<Rightarrow> 'a) \<Rightarrow> ('s \<Rightarrow> 'a \<Rightarrow> real) \<Rightarrow> nat \<Rightarrow> 's \<Rightarrow> 'a \<Rightarrow> 'k \<Rightarrow>
   ('k, 's, 'a) trajectory" where
  "foward_unroll split4 model actor critic H Robs Ra key0 =
     fold (foward_step split4 model actor critic) [0..<H] (foward_init critic Robs Ra key0)"

subsection \<open>Return estimators\<close>

text \<open>
  The loop \<^verbatim>\<open>for i in reversed(range(H))\<close> of the lambda-weighted variant, reading the
  lists of the trajectory \<open>t\<close>. Its state is the list \<^verbatim>\<open>q_rollout\<close>, built by appending
  and reversed once the loop is over, and the scalar \<^verbatim>\<open>lamb_weight\<close>;
  \<^verbatim>\<open>q_rollout[-1]\<close> is \<open>last q_rollout\<close>. The loop is run on a list of indices so that
  its intermediate states can be named; the source runs it on \<open>rev [0..<H]\<close>.
\<close>

definition lambda_step ::
  "real \<Rightarrow> real \<Rightarrow> ('k, 's, 'a) trajectory \<Rightarrow> nat \<Rightarrow> real list \<times> real \<Rightarrow> real list \<times> real" where
  "lambda_step discount lamb t i st =
     (case st of (q_rollout, lamb_weight) \<Rightarrow>
      let q_next = mask_weights t ! i * rewards t ! i
                   + mask_weights t ! (i + 1) * discount * last q_rollout;
          next_value = (q_values t ! i + lamb * lamb_weight * q_next) / (1 + lamb * lamb_weight)
      in (q_rollout @ [next_value], 1 + lamb * lamb_weight))"

definition lambda_loop ::
  "real \<Rightarrow> real \<Rightarrow> ('k, 's, 'a) trajectory \<Rightarrow> nat list \<Rightarrow> real list \<times> real" where
  "lambda_loop discount lamb t js =
     fold (lambda_step discount lamb t) js ([last (q_values t)], 1)"

definition lambda_returns ::
  "real \<Rightarrow> real \<Rightarrow> nat \<Rightarrow> ('k, 's, 'a) trajectory \<Rightarrow> real list" where
  "lambda_returns discount lamb H t =
     rev (fst (lambda_loop discount lamb t (rev [0..<H])))"

text \<open>The same loop of the multi-step variant: no blending, no weight.\<close>

definition multistep_step ::
  "real \<Rightarrow> ('k, 's, 'a) trajectory \<Rightarrow> nat \<Rightarrow> real list \<Rightarrow> real list" where
  "multistep_step discount t i q_rollout =
     (let q_next = mask_weights t ! i * rewards t ! i
                   + mask_weights t ! (i + 1) * discount * last q_rollout
      in q_rollout @ [q_next])"

definition multistep_loop ::
  "real \<Rightarrow> ('k, 's, 'a) trajectory \<Rightarrow> nat list \<Rightarrow> real list" where
  "multistep_loop discount t js =
     fold (multistep_step discount t) js [last (q_values t)]"

definition multistep_returns ::
  "real \<Rightarrow> nat \<Rightarrow> ('k, 's, 'a) trajectory \<Rightarrow> real list" where
  "multistep_returns discount H t =
     rev (multistep_loop discount t (rev [0..<H]))"

text \<open>
  The weight the lambda recursion holds after \<open>n\<close> updates: 1 at the start, then
  \<open>1 + lamb * lamb_weight\<close> each time. Step \<open>i\<close> is reached after \<open>H - 1 - i\<close> updates.
\<close>

fun lamb_weight_after :: "real \<Rightarrow> nat \<Rightarrow> real" where
  "lamb_weight_after lamb 0 = 1"
| "lamb_weight_after lamb (Suc n) = 1 + lamb * lamb_weight_after lamb n"


subsection \<open>The lambda-weighted loop on floats with overflow\<close>
















subsection \<open>Advantage weights and the forward pass\<close>

text \<open>
  \<^verbatim>\<open>jnp.where(q_rollout[i] > q_values[i], expectile, 1 - expectile)\<close> for
  \<^verbatim>\<open>i in range(H)\<close>, then \<^verbatim>\<open>ep_weights.append(0.5)\<close>.
\<close>

definition asymmetric_weights ::
  "real \<Rightarrow> nat \<Rightarrow> real list \<Rightarrow> ('k, 's, 'a) trajectory \<Rightarrow> real list" where
  "asymmetric_weights expectile H q_rollout t =
     map (\<lambda>i. if q_rollout ! i > q_values t ! i then expectile else 1 - expectile) [0..<H]
     @ [0.5]"

text \<open>
  What \<^verbatim>\<open>calculate_gae_foward\<close> returns for one sample: the tuple
  \<^verbatim>\<open>(states, actions, mask_weights, q_rollout, ep_weights)\<close>.
\<close>

record ('s, 'a) foward_out =
  out_states :: "'s list"
  out_actions :: "'a list"
  out_mask_weights :: "real list"
  out_q_rollout :: "real list"
  out_ep_weights :: "real list"

definition lambda_calculate_gae_foward ::
  "('k \<Rightarrow> 'k \<times> 'k \<times> 'k \<times> 'k) \<Rightarrow> ('k \<Rightarrow> 's \<Rightarrow> 'a \<Rightarrow> 's \<times> real \<times> real \<times> 'x) \<Rightarrow>
   ('s \<Rightarrow> 'a) \<Rightarrow> ('s \<Rightarrow> 'a \<Rightarrow> real) \<Rightarrow> real \<Rightarrow> real \<Rightarrow> nat \<Rightarrow> real \<Rightarrow>
   's \<Rightarrow> 'a \<Rightarrow> 'k \<Rightarrow> ('s, 'a) foward_out" where
  "lambda_calculate_gae_foward split4 model actor critic discount lamb H expectile Robs Ra key0 =
     (let t = foward_unroll split4 model actor critic H Robs Ra key0;
          q_rollout = lambda_returns discount lamb H t;
          ep_weights = asymmetric_weights expectile H q_rollout t
      in \<lparr> out_states = states t, out_actions = actions t,
           out_mask_weights = mask_weights t, out_q_rollout = q_rollout,
           out_ep_weights = ep_weights \<rparr>)"

definition multistep_calculate_gae_foward ::
  "('k \<Rightarrow> 'k \<times> 'k \<times> 'k \<times> 'k) \<Rightarrow> ('k \<Rightarrow> 's \<Rightarrow> 'a \<Rightarrow> 's \<times> real \<times> real \<times> 'x) \<Rightarrow>
   ('s \<Rightarrow> 'a) \<Rightarrow> ('s \<Rightarrow> 'a \<Rightarrow> real) \<Rightarrow> real \<Rightarrow> nat \<Rightarrow> real \<Rightarrow>
   's \<Rightarrow> 'a \<Rightarrow> 'k \<Rightarrow> ('s, 'a) foward_out" where
  "multistep_calculate_gae_foward split4 model actor critic discount H expectile Robs Ra key0 =
     (let t = foward_unroll split4 model actor critic H Robs Ra key0;
          q_rollout = multistep_returns discount H t;
          ep_weights = asymmetric_weights expectile H q_rollout t
      in \<lparr> out_states = states t, out_actions = actions t,
           out_mask_weights = mask_weights t, out_q_rollout = q_rollout,
           out_ep_weights = ep_weights \<rparr>)"

text \<open>
  The terminal flag the unroll loop draws at iteration \<open>i\<close>, read back from the finished
  trajectory: the loop calls the model on the first sub-key of \<^verbatim>\<open>keys[-1]\<close>, which is
  \<open>keys t ! i\<close> at that iteration, and on \<open>states t ! i\<close>, \<open>actions t ! i\<close>.
\<close>

definition terminal_flag ::
  "('k \<Rightarrow> 'k \<times> 'k \<times> 'k \<times> 'k) \<Rightarrow> ('k \<Rightarrow> 's \<Rightarrow> 'a \<Rightarrow> 's \<times> real \<times> real \<times> 'x) \<Rightarrow>
   ('k, 's, 'a) trajectory \<Rightarrow> nat \<Rightarrow> real" where
  "terminal_flag split4 model t i =
     (case split4 (keys t ! i) of (rng1, rng2, rng3, key0) \<Rightarrow>
      case model rng1 (states t ! i) (actions t ! i) of (s_next, rew, terminal, aux) \<Rightarrow>
        terminal)"

subsection \<open>The perturbed rollout\<close>

text \<open>
  \<^verbatim>\<open>calculate_gae_backward\<close> repeats the unroll with \<^verbatim>\<open>delta_a[i]\<close> added to the
  action of step \<open>i\<close>. Its only call passes \<^verbatim>\<open>jnp.zeros_like(actions0)\<close>, which has
  \<open>H + 1\<close> entries per sample; lists \<open>delta_a\<close> of another length are outside the model,
  and every statement below about a free \<open>delta_a\<close> assumes that length.
\<close>

definition backward_step ::
  "('k \<Rightarrow> 'k \<times> 'k \<times> 'k \<times> 'k) \<Rightarrow> ('k \<Rightarrow> 's \<Rightarrow> 'a \<Rightarrow> 's \<times> real \<times> real \<times> 'x) \<Rightarrow>
   ('s \<Rightarrow> 'a::monoid_add) \<Rightarrow> ('s \<Rightarrow> 'a \<Rightarrow> real) \<Rightarrow> 'a list \<Rightarrow> nat \<Rightarrow>
   ('k, 's, 'a) trajectory \<Rightarrow> ('k, 's, 'a) trajectory" where
  "backward_step split4 model actor critic delta_a i t =
     (case split4 (last (keys t)) of (rng1, rng2, rng3, key0) \<Rightarrow>
      case model rng1 (states t ! i) (actions t ! i) of (s_next, rew, terminal, aux) \<Rightarrow>
      let a_next = actor s_next + delta_a ! (i + 1) in
        \<lparr> states = states t @ [s_next],
          rewards = rewards t @ [rew],
          actions = actions t @ [a_next],
          mask_weights = mask_weights t @ [mask_weights t ! i * (1 - terminal)],
          keys = keys t @ [key0],
          q_values = q_values t @ [critic s_next a_next] \<rparr>)"

definition backward_init ::
  "('s \<Rightarrow> 'a::monoid_add \<Rightarrow> real) \<Rightarrow> 'a list \<Rightarrow> 's \<Rightarrow> 'a \<Rightarrow> 'k \<Rightarrow> ('k, 's, 'a) trajectory" where
  "backward_init critic delta_a Robs Ra key0 =
     \<lparr> states = [Robs], rewards = [], actions = [Ra + delta_a ! 0], mask_weights = [1],
       keys = [key0], q_values = [critic Robs (Ra + delta_a ! 0)] \<rparr>"

definition backward_unroll ::
  "('k \<Rightarrow> 'k \<times> 'k \<times> 'k \<times> 'k) \<Rightarrow> ('k \<Rightarrow> 's \<Rightarrow> 'a \<Rightarrow> 's \<times> real \<times> real \<times> 'x) \<Rightarrow>
   ('s \<Rightarrow> 'a::monoid_add) \<Rightarrow> ('s \<Rightarrow> 'a \<Rightarrow> real) \<Rightarrow> nat \<Rightarrow> 'a list \<Rightarrow> 's \<Rightarrow> 'a \<Rightarrow> 'k \<Rightarrow>
   ('k, 's, 'a) trajectory" where
  "backward_unroll split4 model actor critic H delta_a Robs Ra key0 =
     fold (backward_step split4 model actor critic delta_a) [0..<H]
       (backward_init critic delta_a Robs Ra key0)"

definition lambda_calculate_gae_backward ::
  "('k \<Rightarrow> 'k \<times> 'k \<times> 'k \<times> 'k) \<Rightarrow> ('k \<Rightarrow> 's \<Rightarrow> 'a \<Rightarrow> 's \<times> real \<times> real \<times> 'x) \<Rightarrow>
   ('s \<Rightarrow> 'a::monoid_add) \<Rightarrow> ('s \<Rightarrow> 'a \<Rightarrow> real) \<Rightarrow> real \<Rightarrow> real \<Rightarrow> nat \<Rightarrow>
   'a list \<Rightarrow> 's \<Rightarrow> 'a \<Rightarrow> 'k \<Rightarrow> real list" where
  "lambda_calculate_gae_backward split4 model actor critic discount lamb H delta_a Robs Ra key0 =
     lambda_returns discount lamb H
       (backward_unroll split4 model actor critic H delta_a Robs Ra key0)"

definition multistep_calculate_gae_backward ::
  "('k \<Rightarrow> 'k \<times> 'k \<times> 'k \<times> 'k) \<Rightarrow> ('k \<Rightarrow> 's \<Rightarrow> 'a \<Rightarrow> 's \<times> real \<times> real \<times> 'x) \<Rightarrow>
   ('s \<Rightarrow> 'a::monoid_add) \<Rightarrow> ('s \<Rightarrow> 'a \<Rightarrow> real) \<Rightarrow> real \<Rightarrow> nat \<Rightarrow>
   'a list \<Rightarrow> 's \<Rightarrow> 'a \<Rightarrow> 'k \<Rightarrow> real list" where
  "multistep_calculate_gae_backward split4 model actor critic discount H delta_a Robs Ra key0 =
     multistep_returns discount H
       (backward_unroll split4 model actor critic H delta_a Robs Ra key0)"

text \<open>\<^verbatim>\<open>jnp.zeros_like\<close> on the per-sample list of actions.\<close>

definition zeros_like :: "'a list \<Rightarrow> ('a::monoid_add) list" where
  "zeros_like xs = map (\<lambda>x. 0) xs"

subsection \<open>Batched tensors, the actor loss and the reported means\<close>


text \<open>
  The tensors of \<^verbatim>\<open>actor_loss_fn\<close>: \<open>ep_weights\<close> and \<open>mask_weights0\<close> have shape
  \<open>(H + 1, B)\<close>; \<open>grad_gae\<close>, \<open>actions_grad\<close> and \<open>policy_std\<close> have shape
  \<open>(H + 1, B, A)\<close>. The Jacobian diagonal \<open>grad_gae\<close> and the policy outputs are inputs
  here. A batch is not empty (the mean over an empty axis is NaN in JAX).
\<close>

definition broadcast_mul :: "real list list \<Rightarrow> real list list list \<Rightarrow> real list list list" where
  "broadcast_mul w x = map2 (\<lambda>wr xr. map2 (\<lambda>c v. map (\<lambda>e. c * e) v) wr xr) w x"

definition mul3 :: "real list list list \<Rightarrow> real list list list \<Rightarrow> real list list list" where
  "mul3 x y = map2 (map2 (map2 (*))) x y"

definition mean_axis1 :: "real list list list \<Rightarrow> real list list" where
  "mean_axis1 x = map (\<lambda>row. map (\<lambda>col. sum_list col / real (length row)) (transpose row)) x"

definition sum_all :: "real list list \<Rightarrow> real" where
  "sum_all m = sum_list (map sum_list m)"

text \<open>
  \<^verbatim>\<open>-(ep_weights[:, :, None] * grad_gae * actions_grad).mean(axis=1).sum()\<close>, the same
  expression in both DPG variants.
\<close>

definition actor_loss ::
  "real list list \<Rightarrow> real list list list \<Rightarrow> real list list list \<Rightarrow> real" where
  "actor_loss ep_weights grad_gae actions_grad =
     - sum_all (mean_axis1 (mul3 (broadcast_mul ep_weights grad_gae) actions_grad))"

text \<open>
  The loss as the specification words it: minus the mean, over horizon steps and batch
  elements, of weight * value gradient * policy action (summed over the components of
  the action).
\<close>

definition mean_over_horizon_and_batch :: "real list list \<Rightarrow> real" where
  "mean_over_horizon_and_batch m = sum_list (concat m) / real (length (concat m))"

definition spec_actor_loss ::
  "real list list \<Rightarrow> real list list list \<Rightarrow> real list list list \<Rightarrow> real" where
  "spec_actor_loss ep_weights grad_gae actions_grad =
     - mean_over_horizon_and_batch
         (map (map sum_list) (mul3 (broadcast_mul ep_weights grad_gae) actions_grad))"

definition shape2 :: "nat \<Rightarrow> nat \<Rightarrow> 'b list list \<Rightarrow> bool" where
  "shape2 n B m \<longleftrightarrow> length m = n \<and> (\<forall>r \<in> set m. length r = B)"

definition shape3 :: "nat \<Rightarrow> nat \<Rightarrow> nat \<Rightarrow> 'b list list list \<Rightarrow> bool" where
  "shape3 n B A x \<longleftrightarrow> length x = n \<and> (\<forall>r \<in> set x. shape2 B A r)"









subsection \<open>A small deterministic environment for concrete runs\<close>

text \<open>
  States and actions are reals and keys are naturals. The model moves to \<open>s + a\<close>, pays
  the action as reward and reports the terminal flag \<open>tm\<close> at every step; the policy
  returns the state and the critic adds state and action.
\<close>

definition toy_split4 :: "nat \<Rightarrow> nat \<times> nat \<times> nat \<times> nat" where
  "toy_split4 k = (4 * k + 1, 4 * k + 2, 4 * k + 3, 4 * k + 4)"

definition toy_model :: "real \<Rightarrow> nat \<Rightarrow> real \<Rightarrow> real \<Rightarrow> real \<times> real \<times> real \<times> unit" where
  "toy_model tm rng s a = (s + a, a, tm, ())"

definition toy_actor :: "real \<Rightarrow> real" where
  "toy_actor s = s"

definition toy_critic :: "real \<Rightarrow> real \<Rightarrow> real" where
  "toy_critic s a = s + a"

definition example_lists :: "(unit, unit, unit) trajectory" where
  "example_lists =
     \<lparr> states = [(), (), ()], rewards = [2, 4], actions = [(), (), ()],
       mask_weights = [1, 1, 1/2], keys = [(), (), ()], q_values = [3, 5, 8] \<rparr>"

section \<open>Properties of the return estimators\<close>

lemma last_nth_Suc: "length xs = Suc k \<Longrightarrow> last xs = xs ! k"
  by (cases xs rule: rev_cases) (auto simp: nth_append)

lemma rev_upt_Suc_from:
  assumes "k < H"
  shows "rev [H - Suc k..<H] = rev [H - k..<H] @ [H - Suc k]"
proof -
  have "[H - Suc k..<H] = (H - Suc k) # [Suc (H - Suc k)..<H]"
    using assms by (simp add: upt_conv_Cons)
  moreover have "Suc (H - Suc k) = H - k" using assms by simp
  ultimately show ?thesis by simp
qed

lemma lambda_loop_Suc:
  assumes "k < H"
  shows "lambda_loop discount lamb t (rev [H - Suc k..<H]) =
         lambda_step discount lamb t (H - Suc k) (lambda_loop discount lamb t (rev [H - k..<H]))"
  by (simp add: lambda_loop_def rev_upt_Suc_from [OF assms])

lemma lambda_loop_char:
  assumes "k \<le> H"
  shows "length (fst (lambda_loop discount lamb t (rev [H - k..<H]))) = Suc k \<and>
         snd (lambda_loop discount lamb t (rev [H - k..<H])) = lamb_weight_after lamb k \<and>
         fst (lambda_loop discount lamb t (rev [H - k..<H])) ! 0 = last (q_values t) \<and>
         (\<forall>m<k. fst (lambda_loop discount lamb t (rev [H - k..<H])) ! Suc m =
            (q_values t ! (H - Suc m)
              + lamb * lamb_weight_after lamb m
                * (mask_weights t ! (H - Suc m) * rewards t ! (H - Suc m)
                   + mask_weights t ! (H - m) * discount
                     * fst (lambda_loop discount lamb t (rev [H - k..<H])) ! m))
            / (1 + lamb * lamb_weight_after lamb m))"
  using assms
proof (induction k)
  case 0
  show ?case by (simp add: lambda_loop_def)
next
  case (Suc k)
  then have kH: "k < H" and IH: "length (fst (lambda_loop discount lamb t (rev [H - k..<H]))) = Suc k"
         "snd (lambda_loop discount lamb t (rev [H - k..<H])) = lamb_weight_after lamb k"
         "fst (lambda_loop discount lamb t (rev [H - k..<H])) ! 0 = last (q_values t)"
         "\<forall>m<k. fst (lambda_loop discount lamb t (rev [H - k..<H])) ! Suc m =
            (q_values t ! (H - Suc m)
              + lamb * lamb_weight_after lamb m
                * (mask_weights t ! (H - Suc m) * rewards t ! (H - Suc m)
                   + mask_weights t ! (H - m) * discount
                     * fst (lambda_loop discount lamb t (rev [H - k..<H])) ! m))
            / (1 + lamb * lamb_weight_after lamb m)"
    by simp_all
  obtain ql w where st: "lambda_loop discount lamb t (rev [H - k..<H]) = (ql, w)"
    by (cases "lambda_loop discount lamb t (rev [H - k..<H])")
  have len: "length ql = Suc k" and w: "w = lamb_weight_after lamb k"
    and q0: "ql ! 0 = last (q_values t)" using IH st by simp_all
  have lastq: "last ql = ql ! k" using len by (rule last_nth_Suc)
  have idx: "Suc (H - Suc k) = H - k" using kH by simp
  let ?nv = "(q_values t ! (H - Suc k) + lamb * w *
               (mask_weights t ! (H - Suc k) * rewards t ! (H - Suc k)
                + mask_weights t ! (H - k) * discount * ql ! k)) / (1 + lamb * w)"
  have new: "lambda_loop discount lamb t (rev [H - Suc k..<H]) = (ql @ [?nv], 1 + lamb * w)"
    by (simp add: lambda_loop_Suc [OF kH] st lambda_step_def lastq idx)
  have "\<forall>m<Suc k. (ql @ [?nv]) ! Suc m =
            (q_values t ! (H - Suc m)
              + lamb * lamb_weight_after lamb m
                * (mask_weights t ! (H - Suc m) * rewards t ! (H - Suc m)
                   + mask_weights t ! (H - m) * discount * (ql @ [?nv]) ! m))
            / (1 + lamb * lamb_weight_after lamb m)"
  proof (intro allI impI)
    fix m assume m: "m < Suc k"
    show "(ql @ [?nv]) ! Suc m =
            (q_values t ! (H - Suc m)
              + lamb * lamb_weight_after lamb m
                * (mask_weights t ! (H - Suc m) * rewards t ! (H - Suc m)
                   + mask_weights t ! (H - m) * discount * (ql @ [?nv]) ! m))
            / (1 + lamb * lamb_weight_after lamb m)"
    proof (cases "m < k")
      case True
      then show ?thesis using IH(4) st len by (simp add: nth_append)
    next
      case False
      then have "m = k" using m by simp
      then show ?thesis using len w by (simp add: nth_append)
    qed
  qed
  then show ?case using new len w q0 by (simp add: nth_append)
qed


lemma lambda_returns_length: "length (lambda_returns discount lamb H t) = Suc H"
  using lambda_loop_char [of H H discount lamb t] by (simp add: lambda_returns_def)

lemma lambda_returns_nth_rev:
  assumes "i \<le> H"
  shows "lambda_returns discount lamb H t ! i =
         fst (lambda_loop discount lamb t (rev [0..<H])) ! (H - i)"
  using assms lambda_loop_char [of H H discount lamb t]
  by (simp add: lambda_returns_def rev_nth)

lemma lambda_returns_last: "lambda_returns discount lamb H t ! H = last (q_values t)"
  using lambda_loop_char [of H H discount lamb t] lambda_returns_nth_rev [of H H discount lamb t]
  by simp

lemma lambda_returns_step:
  assumes "i < H"
  shows "lambda_returns discount lamb H t ! i =
           (q_values t ! i
             + lamb * lamb_weight_after lamb (H - 1 - i)
               * (mask_weights t ! i * rewards t ! i
                  + mask_weights t ! (i + 1) * discount * lambda_returns discount lamb H t ! (i + 1)))
           / (1 + lamb * lamb_weight_after lamb (H - 1 - i))"
proof -
  let ?ql = "fst (lambda_loop discount lamb t (rev [0..<H]))"
  define m where "m = H - 1 - i"
  have m: "m < H" "H - i = Suc m" "H - Suc m = i" "H - m = i + 1" "H - (i + 1) = m"
    using assms by (simp_all add: m_def)
  have "?ql ! Suc m =
          (q_values t ! (H - Suc m)
            + lamb * lamb_weight_after lamb m
              * (mask_weights t ! (H - Suc m) * rewards t ! (H - Suc m)
                 + mask_weights t ! (H - m) * discount * ?ql ! m))
          / (1 + lamb * lamb_weight_after lamb m)"
    using lambda_loop_char [of H H discount lamb t] m(1) by simp
  moreover have "lambda_returns discount lamb H t ! i = ?ql ! Suc m"
    using lambda_returns_nth_rev [of i H discount lamb t] assms m(2) by simp
  moreover have "lambda_returns discount lamb H t ! (i + 1) = ?ql ! m"
    using lambda_returns_nth_rev [of "i + 1" H discount lamb t] assms m(5) by simp
  ultimately show ?thesis using m(3,4) by (simp add: m_def)
qed

lemma lamb_weight_after_ge1: "0 \<le> lamb \<Longrightarrow> 1 \<le> lamb_weight_after lamb n"
proof (induction n)
  case 0
  show ?case by simp
next
  case (Suc n)
  then have "0 \<le> lamb * lamb_weight_after lamb n" by simp
  then show ?case by simp
qed

lemma take_rev_upt: "k \<le> H \<Longrightarrow> take k (rev [0..<H]) = rev [H - k..<H]"
  by (simp add: take_rev)

text \<open>
  Claim C1. In the lambda-weighted return estimator, for a horizon \<open>H \<ge> 1\<close>, any
  discount, \<open>lamb \<ge> 0\<close> and any reward, mask and critic-value lists of lengths \<open>H\<close>,
  \<open>H + 1\<close> and \<open>H + 1\<close>: the result has \<open>H + 1\<close> entries, entry \<open>H\<close> is the critic
  value of the final step, and every entry \<open>i < H\<close> is
  \<open>(q_values[i] + lamb * w * q_next) / (1 + lamb * w)\<close> with
  \<open>q_next = mask[i] * reward[i] + mask[i + 1] * discount * q_rollout[i + 1]\<close>, where \<open>w\<close> is
  the weight before its update at step \<open>i\<close>: 1 at \<open>i = H - 1\<close>, and \<open>1 + lamb * w\<close> one
  step further back.
\<close>

theorem lambda_returns_recursion:
  assumes "1 \<le> H" and "0 \<le> lamb"
    and "length (rewards t) = H" and "length (mask_weights t) = H + 1"
    and "length (q_values t) = H + 1"
  shows "length (lambda_returns discount lamb H t) = H + 1 \<and>
         lambda_returns discount lamb H t ! H = q_values t ! H \<and>
         (\<forall>i<H. lambda_returns discount lamb H t ! i =
            (q_values t ! i
              + lamb * lamb_weight_after lamb (H - 1 - i)
                * (mask_weights t ! i * rewards t ! i
                   + mask_weights t ! (i + 1) * discount
                     * lambda_returns discount lamb H t ! (i + 1)))
            / (1 + lamb * lamb_weight_after lamb (H - 1 - i)))"
proof -
  have "last (q_values t) = q_values t ! H"
    using assms(5) last_nth_Suc [of "q_values t" H] by simp
  then show ?thesis
    using lambda_returns_length [of discount lamb H t] lambda_returns_last [of discount lamb H t]
      lambda_returns_step [of _ H discount lamb t]
    by simp
qed

text \<open>
  Claim C10. For \<open>lamb \<ge> 0\<close> the weight \<open>lamb_weight\<close> is at least 1 in every state
  the backward recursion passes through (after \<open>k\<close> of its \<open>H\<close> iterations, for every
  \<open>k \<le> H\<close>), so the divisor \<open>1 + lamb * lamb_weight\<close> of the next iteration is at
  least 1 and is never zero. The perturbed rollout runs the same loop.
\<close>

theorem lamb_weight_ge_one:
  assumes "0 \<le> lamb" and "k \<le> H"
  shows "1 \<le> snd (lambda_loop discount lamb t (take k (rev [0..<H]))) \<and>
         1 \<le> 1 + lamb * snd (lambda_loop discount lamb t (take k (rev [0..<H]))) \<and>
         1 + lamb * snd (lambda_loop discount lamb t (take k (rev [0..<H]))) \<noteq> 0"
proof -
  have w: "snd (lambda_loop discount lamb t (take k (rev [0..<H]))) = lamb_weight_after lamb k"
    using lambda_loop_char [OF assms(2), of discount lamb t] take_rev_upt [OF assms(2)] by simp
  have "1 \<le> lamb_weight_after lamb k" by (rule lamb_weight_after_ge1 [OF assms(1)])
  moreover from this have "0 \<le> lamb * lamb_weight_after lamb k" using assms(1) by simp
  ultimately show ?thesis using w by simp
qed


lemma multistep_loop_Suc:
  assumes "k < H"
  shows "multistep_loop discount t (rev [H - Suc k..<H]) =
         multistep_step discount t (H - Suc k) (multistep_loop discount t (rev [H - k..<H]))"
  by (simp add: multistep_loop_def rev_upt_Suc_from [OF assms])

lemma multistep_loop_char:
  assumes "k \<le> H"
  shows "length (multistep_loop discount t (rev [H - k..<H])) = Suc k \<and>
         multistep_loop discount t (rev [H - k..<H]) ! 0 = last (q_values t) \<and>
         (\<forall>m<k. multistep_loop discount t (rev [H - k..<H]) ! Suc m =
            mask_weights t ! (H - Suc m) * rewards t ! (H - Suc m)
            + mask_weights t ! (H - m) * discount
              * multistep_loop discount t (rev [H - k..<H]) ! m)"
  using assms
proof (induction k)
  case 0
  show ?case by (simp add: multistep_loop_def)
next
  case (Suc k)
  let ?ql = "multistep_loop discount t (rev [H - k..<H])"
  from Suc have kH: "k < H" and len: "length ?ql = Suc k"
    and q0: "?ql ! 0 = last (q_values t)"
    and IH: "\<forall>m<k. ?ql ! Suc m =
            mask_weights t ! (H - Suc m) * rewards t ! (H - Suc m)
            + mask_weights t ! (H - m) * discount * ?ql ! m"
    by simp_all
  have lastq: "last ?ql = ?ql ! k" using len by (rule last_nth_Suc)
  have idx: "Suc (H - Suc k) = H - k" using kH by simp
  let ?nv = "mask_weights t ! (H - Suc k) * rewards t ! (H - Suc k)
             + mask_weights t ! (H - k) * discount * ?ql ! k"
  have new: "multistep_loop discount t (rev [H - Suc k..<H]) = ?ql @ [?nv]"
    by (simp add: multistep_loop_Suc [OF kH] multistep_step_def lastq idx)
  have "\<forall>m<Suc k. (?ql @ [?nv]) ! Suc m =
            mask_weights t ! (H - Suc m) * rewards t ! (H - Suc m)
            + mask_weights t ! (H - m) * discount * (?ql @ [?nv]) ! m"
  proof (intro allI impI)
    fix m assume m: "m < Suc k"
    show "(?ql @ [?nv]) ! Suc m =
            mask_weights t ! (H - Suc m) * rewards t ! (H - Suc m)
            + mask_weights t ! (H - m) * discount * (?ql @ [?nv]) ! m"
    proof (cases "m < k")
      case True
      then show ?thesis using IH len by (simp add: nth_append)
    next
      case False
      then have "m = k" using m by simp
      then show ?thesis using len by (simp add: nth_append)
    qed
  qed
  then show ?case using len q0 by (simp add: new nth_append)
qed

lemma multistep_returns_length: "length (multistep_returns discount H t) = Suc H"
  using multistep_loop_char [of H H discount t] by (simp add: multistep_returns_def)

lemma multistep_returns_nth_rev:
  assumes "i \<le> H"
  shows "multistep_returns discount H t ! i = multistep_loop discount t (rev [0..<H]) ! (H - i)"
  using assms multistep_loop_char [of H H discount t]
  by (simp add: multistep_returns_def rev_nth)

lemma multistep_returns_last: "multistep_returns discount H t ! H = last (q_values t)"
  using multistep_loop_char [of H H discount t] multistep_returns_nth_rev [of H H discount t]
  by simp

lemma multistep_returns_step:
  assumes "i < H"
  shows "multistep_returns discount H t ! i =
           mask_weights t ! i * rewards t ! i
           + mask_weights t ! (i + 1) * discount * multistep_returns discount H t ! (i + 1)"
proof -
  let ?ql = "multistep_loop discount t (rev [0..<H])"
  define m where "m = H - 1 - i"
  have m: "m < H" "H - i = Suc m" "H - Suc m = i" "H - m = i + 1" "H - (i + 1) = m"
    using assms by (simp_all add: m_def)
  have "?ql ! Suc m =
          mask_weights t ! (H - Suc m) * rewards t ! (H - Suc m)
          + mask_weights t ! (H - m) * discount * ?ql ! m"
    using multistep_loop_char [of H H discount t] m(1) by simp
  moreover have "multistep_returns discount H t ! i = ?ql ! Suc m"
    using multistep_returns_nth_rev [of i H discount t] assms m(2) by simp
  moreover have "multistep_returns discount H t ! (i + 1) = ?ql ! m"
    using multistep_returns_nth_rev [of "i + 1" H discount t] assms m(5) by simp
  ultimately show ?thesis using m(3,4) by simp
qed

text \<open>
  Claim C2. In the multi-step return estimator, for a horizon \<open>H \<ge> 1\<close> and any reward,
  mask and critic-value lists of lengths \<open>H\<close>, \<open>H + 1\<close> and \<open>H + 1\<close>: entry \<open>H\<close> of the
  result is the critic value of the final step, and every entry \<open>i < H\<close> is
  \<open>mask[i] * reward[i] + mask[i + 1] * discount * q_rollout[i + 1]\<close>; no critic value of an
  earlier step enters.
\<close>

theorem multistep_returns_recursion:
  assumes "1 \<le> H"
    and "length (rewards t) = H" and "length (mask_weights t) = H + 1"
    and "length (q_values t) = H + 1"
  shows "length (multistep_returns discount H t) = H + 1 \<and>
         multistep_returns discount H t ! H = q_values t ! H \<and>
         (\<forall>i<H. multistep_returns discount H t ! i =
            mask_weights t ! i * rewards t ! i
            + mask_weights t ! (i + 1) * discount * multistep_returns discount H t ! (i + 1))"
proof -
  have "last (q_values t) = q_values t ! H"
    using assms(4) last_nth_Suc [of "q_values t" H] by simp
  then show ?thesis
    using multistep_returns_length [of discount H t] multistep_returns_last [of discount H t]
      multistep_returns_step [of _ H discount t]
    by simp
qed

theorem lambda_returns_recursion_witness:
  "(1::nat) \<le> 2 \<and> (0::real) \<le> 1 \<and>
   length (rewards example_lists) = 2 \<and> length (mask_weights example_lists) = 2 + 1 \<and>
   length (q_values example_lists) = 2 + 1 \<and>
   lambda_returns 1 1 2 example_lists ! 2 = 8 \<and>
   lambda_returns 1 1 2 example_lists ! 1 = (5 + 1 * 1 * (1 * 4 + 1/2 * 1 * 8)) / (1 + 1 * 1) \<and>
   lambda_returns 1 1 2 example_lists ! 0
     = (3 + 1 * (1 + 1 * 1) * (1 * 2 + 1 * 1 * (13/2))) / (1 + 1 * (1 + 1 * 1))"
  using lambda_returns_recursion [of 2 1 example_lists 1]
  by (simp add: example_lists_def eval_nat_numeral)

theorem multistep_returns_recursion_witness:
  "(1::nat) \<le> 2 \<and>
   length (rewards example_lists) = 2 \<and> length (mask_weights example_lists) = 2 + 1 \<and>
   length (q_values example_lists) = 2 + 1 \<and>
   multistep_returns 1 2 example_lists ! 2 = 8 \<and>
   multistep_returns 1 2 example_lists ! 1 = 1 * 4 + 1/2 * 1 * 8 \<and>
   multistep_returns 1 2 example_lists ! 0 = 1 * 2 + 1 * 1 * 8"
  using multistep_returns_recursion [of 2 example_lists 1]
  by (simp add: example_lists_def eval_nat_numeral)

theorem lamb_weight_ge_one_witness:
  "(0::real) \<le> 3 \<and> (2::nat) \<le> 2 \<and>
   1 \<le> snd (lambda_loop 1 3 example_lists (take 2 (rev [0..<2]))) \<and>
   1 + 3 * snd (lambda_loop 1 3 example_lists (take 2 (rev [0..<2]))) \<noteq> 0"
  using lamb_weight_ge_one [of 3 2 2 1 example_lists]
  by simp


section \<open>The lambda-weighted loop at \<open>lamb = 0\<close>, on floats with overflow\<close>











section \<open>Properties of the unroll loop\<close>

lemma foward_unroll_Suc:
  "foward_unroll split4 model actor critic (Suc H) Robs Ra key0 =
   foward_step split4 model actor critic H (foward_unroll split4 model actor critic H Robs Ra key0)"
  by (simp add: foward_unroll_def)

lemma foward_unroll_0:
  "foward_unroll split4 model actor critic 0 Robs Ra key0 = foward_init critic Robs Ra key0"
  by (simp add: foward_unroll_def)

lemma foward_step_fields:
  "states (foward_step split4 model actor critic i t) =
     states t @ [fst (model (fst (split4 (last (keys t)))) (states t ! i) (actions t ! i))]"
  "rewards (foward_step split4 model actor critic i t) =
     rewards t @ [fst (snd (model (fst (split4 (last (keys t)))) (states t ! i) (actions t ! i)))]"
  "actions (foward_step split4 model actor critic i t) =
     actions t @ [actor (fst (model (fst (split4 (last (keys t)))) (states t ! i) (actions t ! i)))]"
  "mask_weights (foward_step split4 model actor critic i t) =
     mask_weights t @ [mask_weights t ! i *
       (1 - fst (snd (snd (model (fst (split4 (last (keys t)))) (states t ! i) (actions t ! i)))))]"
  "keys (foward_step split4 model actor critic i t) =
     keys t @ [snd (snd (snd (split4 (last (keys t)))))]"
  "q_values (foward_step split4 model actor critic i t) =
     q_values t @ [critic (fst (model (fst (split4 (last (keys t)))) (states t ! i) (actions t ! i)))
       (actor (fst (model (fst (split4 (last (keys t)))) (states t ! i) (actions t ! i))))]"
  by (simp_all add: foward_step_def Let_def split: prod.split)

lemma foward_unroll_lengths:
  "length (states (foward_unroll split4 model actor critic H Robs Ra key0)) = Suc H \<and>
   length (rewards (foward_unroll split4 model actor critic H Robs Ra key0)) = H \<and>
   length (actions (foward_unroll split4 model actor critic H Robs Ra key0)) = Suc H \<and>
   length (mask_weights (foward_unroll split4 model actor critic H Robs Ra key0)) = Suc H \<and>
   length (keys (foward_unroll split4 model actor critic H Robs Ra key0)) = Suc H \<and>
   length (q_values (foward_unroll split4 model actor critic H Robs Ra key0)) = Suc H"
proof (induction H)
  case 0
  show ?case by (simp add: foward_unroll_0 foward_init_def)
next
  case (Suc H)
  then show ?case by (simp add: foward_unroll_Suc foward_step_fields)
qed

text \<open>Entries already written are not touched by later iterations.\<close>

lemma foward_unroll_prefix:
  assumes "n \<le> H"
  shows "(\<forall>i\<le>n. states (foward_unroll split4 model actor critic H Robs Ra key0) ! i
              = states (foward_unroll split4 model actor critic n Robs Ra key0) ! i) \<and>
         (\<forall>i\<le>n. actions (foward_unroll split4 model actor critic H Robs Ra key0) ! i
              = actions (foward_unroll split4 model actor critic n Robs Ra key0) ! i) \<and>
         (\<forall>i\<le>n. mask_weights (foward_unroll split4 model actor critic H Robs Ra key0) ! i
              = mask_weights (foward_unroll split4 model actor critic n Robs Ra key0) ! i) \<and>
         (\<forall>i\<le>n. keys (foward_unroll split4 model actor critic H Robs Ra key0) ! i
              = keys (foward_unroll split4 model actor critic n Robs Ra key0) ! i) \<and>
         (\<forall>i\<le>n. q_values (foward_unroll split4 model actor critic H Robs Ra key0) ! i
              = q_values (foward_unroll split4 model actor critic n Robs Ra key0) ! i)"
  using assms
proof (induction H)
  case 0
  then show ?case by simp
next
  case (Suc H)
  show ?case
  proof (cases "n = Suc H")
    case True
    then show ?thesis by simp
  next
    case False
    then have "n \<le> H" using Suc.prems by simp
    then show ?thesis
      using Suc.IH foward_unroll_lengths [of split4 model actor critic H Robs Ra key0]
      by (simp add: foward_unroll_Suc foward_step_fields nth_append)
  qed
qed


lemma foward_unroll_mask_0:
  "mask_weights (foward_unroll split4 model actor critic H Robs Ra key0) ! 0 = 1"
  using foward_unroll_prefix [of 0 H split4 model actor critic Robs Ra key0]
  by (simp add: foward_unroll_0 foward_init_def)

lemma foward_unroll_mask_Suc:
  assumes "i < H"
  shows "mask_weights (foward_unroll split4 model actor critic H Robs Ra key0) ! (i + 1) =
         mask_weights (foward_unroll split4 model actor critic H Robs Ra key0) ! i
         * (1 - terminal_flag split4 model
                  (foward_unroll split4 model actor critic H Robs Ra key0) i)"
proof -
  let ?tH = "foward_unroll split4 model actor critic H Robs Ra key0"
  let ?ti = "foward_unroll split4 model actor critic i Robs Ra key0"
  let ?tS = "foward_unroll split4 model actor critic (Suc i) Robs Ra key0"
  have len: "length (mask_weights ?ti) = Suc i" "length (keys ?ti) = Suc i"
    using foward_unroll_lengths [of split4 model actor critic i Robs Ra key0] by simp_all
  have lastk: "last (keys ?ti) = keys ?ti ! i" using len(2) by (rule last_nth_Suc)
  have pi: "states ?tH ! i = states ?ti ! i" "actions ?tH ! i = actions ?ti ! i"
    "mask_weights ?tH ! i = mask_weights ?ti ! i" "keys ?tH ! i = keys ?ti ! i"
    using foward_unroll_prefix [of i H split4 model actor critic Robs Ra key0] assms by simp_all
  have pS: "mask_weights ?tH ! Suc i = mask_weights ?tS ! Suc i"
    using foward_unroll_prefix [of "Suc i" H split4 model actor critic Robs Ra key0] assms
    by simp
  have "mask_weights ?tS ! Suc i =
        mask_weights ?ti ! i
        * (1 - fst (snd (snd (model (fst (split4 (keys ?ti ! i))) (states ?ti ! i) (actions ?ti ! i)))))"
    using len(1) by (simp add: foward_unroll_Suc foward_step_fields nth_append lastk)
  moreover have "terminal_flag split4 model ?tH i =
        fst (snd (snd (model (fst (split4 (keys ?ti ! i))) (states ?ti ! i) (actions ?ti ! i))))"
    by (simp add: terminal_flag_def pi split: prod.split)
  ultimately show ?thesis using pS pi(3) by simp
qed

lemma foward_unroll_q_values:
  assumes "i \<le> H"
  shows "q_values (foward_unroll split4 model actor critic H Robs Ra key0) ! i =
         critic (states (foward_unroll split4 model actor critic H Robs Ra key0) ! i)
                (actions (foward_unroll split4 model actor critic H Robs Ra key0) ! i)"
proof -
  let ?tH = "foward_unroll split4 model actor critic H Robs Ra key0"
  let ?ti = "foward_unroll split4 model actor critic i Robs Ra key0"
  have pi: "states ?tH ! i = states ?ti ! i" "actions ?tH ! i = actions ?ti ! i"
    "q_values ?tH ! i = q_values ?ti ! i"
    using foward_unroll_prefix [of i H split4 model actor critic Robs Ra key0] assms by simp_all
  have "q_values ?ti ! i = critic (states ?ti ! i) (actions ?ti ! i)"
  proof (cases i)
    case 0
    then show ?thesis by (simp add: foward_unroll_0 foward_init_def)
  next
    case (Suc j)
    then show ?thesis
      using foward_unroll_lengths [of split4 model actor critic j Robs Ra key0]
      by (simp add: foward_unroll_Suc foward_step_fields nth_append)
  qed
  then show ?thesis using pi by simp
qed

text \<open>Facts about any list that starts at 1 and is multiplied by a factor at each step.\<close>

lemma mask_range:
  fixes mask :: "real list" and c :: "nat \<Rightarrow> real"
  assumes "mask ! 0 = 1"
    and "\<forall>i<H. mask ! (i + 1) = mask ! i * (1 - c i)"
    and "\<forall>i<H. 0 \<le> c i \<and> c i \<le> 1"
    and "i \<le> H"
  shows "0 \<le> mask ! i \<and> mask ! i \<le> 1"
  using assms(4)
proof (induction i)
  case 0
  show ?case using assms(1) by simp
next
  case (Suc i)
  then have iH: "i < H" and IH: "0 \<le> mask ! i" "mask ! i \<le> 1" by simp_all
  have c: "0 \<le> 1 - c i" "1 - c i \<le> 1" using assms(3) iH by simp_all
  have eq: "mask ! Suc i = mask ! i * (1 - c i)" using assms(2) iH by simp
  have "0 \<le> mask ! i * (1 - c i)" using IH(1) c(1) by (rule mult_nonneg_nonneg)
  moreover have "mask ! i * (1 - c i) \<le> 1" using IH c by (simp add: mult_le_one)
  ultimately show ?case using eq by simp
qed

lemma mask_zero_stays:
  fixes mask :: "real list" and c :: "nat \<Rightarrow> real"
  assumes "\<forall>i<H. mask ! (i + 1) = mask ! i * (1 - c i)"
    and "mask ! i = 0" and "i \<le> j" and "j \<le> H"
  shows "mask ! j = 0"
  using assms(3,4)
proof (induction j)
  case 0
  then show ?case using assms(2) by simp
next
  case (Suc j)
  show ?case
  proof (cases "i = Suc j")
    case True
    then show ?thesis using assms(2) by simp
  next
    case False
    then have "i \<le> j" "j < H" using Suc.prems by simp_all
    then have "mask ! j = 0" using Suc.IH by simp
    then show ?thesis using assms(1) \<open>j < H\<close> by simp
  qed
qed

text \<open>
  Claim C7. For a trajectory whose terminal flags lie in \<open>[0, 1]\<close>, the alive-mask of
  the unroll loop starts at \<open>mask[0] = 1\<close>, follows
  \<open>mask[i + 1] = mask[i] * (1 - terminal_i)\<close>, never increases, stays in \<open>[0, 1]\<close>, and
  once an entry is 0 every later entry is 0.
\<close>

theorem alive_mask_invariant:
  assumes "\<forall>i<H. 0 \<le> terminal_flag split4 model
                        (foward_unroll split4 model actor critic H Robs Ra key0) i
               \<and> terminal_flag split4 model
                        (foward_unroll split4 model actor critic H Robs Ra key0) i \<le> 1"
  shows "length (mask_weights (foward_unroll split4 model actor critic H Robs Ra key0)) = H + 1 \<and>
         mask_weights (foward_unroll split4 model actor critic H Robs Ra key0) ! 0 = 1 \<and>
         (\<forall>i<H. mask_weights (foward_unroll split4 model actor critic H Robs Ra key0) ! (i + 1)
                 = mask_weights (foward_unroll split4 model actor critic H Robs Ra key0) ! i
                   * (1 - terminal_flag split4 model
                            (foward_unroll split4 model actor critic H Robs Ra key0) i)) \<and>
         (\<forall>i<H. mask_weights (foward_unroll split4 model actor critic H Robs Ra key0) ! (i + 1)
                 \<le> mask_weights (foward_unroll split4 model actor critic H Robs Ra key0) ! i) \<and>
         (\<forall>i\<le>H. 0 \<le> mask_weights (foward_unroll split4 model actor critic H Robs Ra key0) ! i
                 \<and> mask_weights (foward_unroll split4 model actor critic H Robs Ra key0) ! i \<le> 1) \<and>
         (\<forall>i j. i < j \<and> j \<le> H
                 \<and> mask_weights (foward_unroll split4 model actor critic H Robs Ra key0) ! i = 0
             \<longrightarrow> mask_weights (foward_unroll split4 model actor critic H Robs Ra key0) ! j = 0)"
proof -
  let ?t = "foward_unroll split4 model actor critic H Robs Ra key0"
  let ?mask = "mask_weights ?t"
  let ?c = "terminal_flag split4 model ?t"
  have len: "length ?mask = H + 1"
    using foward_unroll_lengths [of split4 model actor critic H Robs Ra key0] by simp
  have m0: "?mask ! 0 = 1" by (rule foward_unroll_mask_0)
  have rec: "\<forall>i<H. ?mask ! (i + 1) = ?mask ! i * (1 - ?c i)"
    using foward_unroll_mask_Suc [of _ H split4 model actor critic Robs Ra key0] by blast
  have range: "\<forall>i\<le>H. 0 \<le> ?mask ! i \<and> ?mask ! i \<le> 1"
    using mask_range [OF m0 rec assms] by blast
  have mono: "\<forall>i<H. ?mask ! (i + 1) \<le> ?mask ! i"
  proof (intro allI impI)
    fix i assume iH: "i < H"
    have "0 \<le> ?mask ! i" using range iH by simp
    moreover have "1 - ?c i \<le> 1" using assms iH by simp
    ultimately have "?mask ! i * (1 - ?c i) \<le> ?mask ! i * 1" by (rule mult_left_mono [rotated])
    then show "?mask ! (i + 1) \<le> ?mask ! i" using rec iH by simp
  qed
  have zero: "\<forall>i j. i < j \<and> j \<le> H \<and> ?mask ! i = 0 \<longrightarrow> ?mask ! j = 0"
    using mask_zero_stays [OF rec] by (metis less_imp_le)
  show ?thesis using len m0 rec mono range zero by blast
qed

subsection \<open>The unroll loop on the small environment\<close>

lemma toy_terminal_flag: "terminal_flag toy_split4 (toy_model tm) t i = tm"
  by (simp add: terminal_flag_def toy_split4_def toy_model_def)

lemma toy_foward_unroll_1:
  "foward_unroll toy_split4 (toy_model tm) toy_actor toy_critic (Suc 0) 1 2 0 =
     \<lparr> states = [1, 3], rewards = [2], actions = [2, 3], mask_weights = [1, 1 - tm],
       keys = [0, 4], q_values = [3, 6] \<rparr>"
  by (simp add: foward_unroll_def foward_init_def foward_step_def toy_split4_def
      toy_model_def toy_actor_def toy_critic_def)

lemma toy_foward_unroll_2:
  "foward_unroll toy_split4 (toy_model tm) toy_actor toy_critic (Suc (Suc 0)) 1 2 0 =
     \<lparr> states = [1, 3, 6], rewards = [2, 3], actions = [2, 3, 6],
       mask_weights = [1, 1 - tm, (1 - tm) * (1 - tm)],
       keys = [0, 4, 20], q_values = [3, 6, 12] \<rparr>"
  by (simp add: foward_unroll_Suc [of _ _ _ _ "Suc 0"] toy_foward_unroll_1 foward_step_def toy_split4_def
      toy_model_def toy_actor_def toy_critic_def)

lemma toy_lambda_foward_1:
  "lambda_calculate_gae_foward toy_split4 (toy_model tm) toy_actor toy_critic 1 1 (Suc 0) (7/10) 1 2 0 =
     \<lparr> out_states = [1, 3], out_actions = [2, 3], out_mask_weights = [1, 1 - tm],
       out_q_rollout = [(3 + (2 + (1 - tm) * 6)) / 2, 6],
       out_ep_weights = [if (3 + (2 + (1 - tm) * 6)) / 2 > 3 then 7/10 else 3/10, 1/2] \<rparr>"
  by (simp add: lambda_calculate_gae_foward_def toy_foward_unroll_1 Let_def
      lambda_returns_def lambda_loop_def lambda_step_def asymmetric_weights_def)

lemma toy_multistep_foward_1:
  "multistep_calculate_gae_foward toy_split4 (toy_model tm) toy_actor toy_critic 1 (Suc 0) (7/10) 1 2 0 =
     \<lparr> out_states = [1, 3], out_actions = [2, 3], out_mask_weights = [1, 1 - tm],
       out_q_rollout = [2 + (1 - tm) * 6, 6],
       out_ep_weights = [if 2 + (1 - tm) * 6 > 3 then 7/10 else 3/10, 1/2] \<rparr>"
  by (simp add: multistep_calculate_gae_foward_def toy_foward_unroll_1 Let_def
      multistep_returns_def multistep_loop_def multistep_step_def asymmetric_weights_def)

section \<open>Advantage weights and the zero perturbation\<close>

lemma asymmetric_weights_nth:
  assumes "i < H"
  shows "asymmetric_weights expectile H q t ! i =
         (if q ! i > q_values t ! i then expectile else 1 - expectile)"
  using assms by (simp add: asymmetric_weights_def nth_append)

lemma asymmetric_weights_last: "asymmetric_weights expectile H q t ! H = 1/2"
  by (simp add: asymmetric_weights_def nth_append)


text \<open>
  Claim C6. In both variants, for every sample and every step \<open>i < H\<close> the advantage
  weight is \<open>expectile\<close> when \<open>q_rollout[i]\<close> exceeds the critic value of step \<open>i\<close>
  and \<open>1 - expectile\<close> otherwise; the weight at the terminal index \<open>H\<close> is 0.5.
\<close>

theorem advantage_weights:
  "(\<forall>i<H.
      out_ep_weights (lambda_calculate_gae_foward split4 model actor critic discount lamb H
                        expectile Robs Ra key0) ! i
      = (if out_q_rollout (lambda_calculate_gae_foward split4 model actor critic discount lamb H
                             expectile Robs Ra key0) ! i
            > critic (out_states (lambda_calculate_gae_foward split4 model actor critic discount
                                     lamb H expectile Robs Ra key0) ! i)
                     (out_actions (lambda_calculate_gae_foward split4 model actor critic discount
                                     lamb H expectile Robs Ra key0) ! i)
         then expectile else 1 - expectile)) \<and>
   out_ep_weights (lambda_calculate_gae_foward split4 model actor critic discount lamb H
                     expectile Robs Ra key0) ! H = 0.5 \<and>
   (\<forall>i<H.
      out_ep_weights (multistep_calculate_gae_foward split4 model actor critic discount H
                        expectile Robs Ra key0) ! i
      = (if out_q_rollout (multistep_calculate_gae_foward split4 model actor critic discount H
                             expectile Robs Ra key0) ! i
            > critic (out_states (multistep_calculate_gae_foward split4 model actor critic discount
                                     H expectile Robs Ra key0) ! i)
                     (out_actions (multistep_calculate_gae_foward split4 model actor critic discount
                                     H expectile Robs Ra key0) ! i)
         then expectile else 1 - expectile)) \<and>
   out_ep_weights (multistep_calculate_gae_foward split4 model actor critic discount H
                     expectile Robs Ra key0) ! H = 0.5"
proof -
  let ?t = "foward_unroll split4 model actor critic H Robs Ra key0"
  have q: "\<forall>i<H. q_values ?t ! i = critic (states ?t ! i) (actions ?t ! i)"
    using foward_unroll_q_values [of _ H split4 model actor critic Robs Ra key0] by simp
  show ?thesis
    using q
    by (simp add: lambda_calculate_gae_foward_def multistep_calculate_gae_foward_def Let_def
        asymmetric_weights_nth asymmetric_weights_last)
qed

lemma backward_unroll_Suc:
  "backward_unroll split4 model actor critic (Suc H) delta_a Robs Ra key0 =
   backward_step split4 model actor critic delta_a H
     (backward_unroll split4 model actor critic H delta_a Robs Ra key0)"
  by (simp add: backward_unroll_def)

lemma backward_unroll_0:
  "backward_unroll split4 model actor critic 0 delta_a Robs Ra key0 =
   backward_init critic delta_a Robs Ra key0"
  by (simp add: backward_unroll_def)

lemma backward_step_zero:
  assumes "delta_a ! (i + 1) = 0"
  shows "backward_step split4 model actor critic delta_a i t =
         foward_step split4 model actor critic i t"
  using assms by (simp add: backward_step_def foward_step_def)

lemma backward_unroll_zero:
  assumes "\<forall>i\<le>H. delta_a ! i = 0" and "n \<le> H"
  shows "backward_unroll split4 model actor critic n delta_a Robs Ra key0 =
         foward_unroll split4 model actor critic n Robs Ra key0"
  using assms(2)
proof (induction n)
  case 0
  have "delta_a ! 0 = 0" using assms(1) by simp
  then show ?case
    by (simp add: backward_unroll_0 foward_unroll_0 backward_init_def foward_init_def)
next
  case (Suc n)
  then have "delta_a ! (n + 1) = 0" using assms(1) by simp
  then show ?case
    using Suc by (simp add: backward_unroll_Suc foward_unroll_Suc backward_step_zero)
qed

lemma zeros_like_nth: "i < length xs \<Longrightarrow> zeros_like xs ! i = 0"
  by (simp add: zeros_like_def)

lemma backward_unroll_zeros_like:
  "backward_unroll split4 model actor critic H
     (zeros_like (actions (foward_unroll split4 model actor critic H Robs Ra key0))) Robs Ra key0
   = foward_unroll split4 model actor critic H Robs Ra key0"
proof -
  have "length (actions (foward_unroll split4 model actor critic H Robs Ra key0)) = Suc H"
    using foward_unroll_lengths [of split4 model actor critic H Robs Ra key0] by simp
  then have "\<forall>i\<le>H. zeros_like (actions (foward_unroll split4 model actor critic H Robs Ra key0)) ! i = 0"
    by (simp add: zeros_like_nth)
  then show ?thesis by (rule backward_unroll_zero) simp
qed

text \<open>
  Claim C5. For every start state, start action and key, the perturbed rollout at the
  all-zero perturbation \<^verbatim>\<open>jnp.zeros_like(actions0)\<close> returns the \<^verbatim>\<open>q_rollout\<close> of the
  forward pass on the same inputs, in the lambda-weighted and in the multi-step variant.
\<close>

theorem zero_perturbation_replays_foward:
  "lambda_calculate_gae_backward split4 model actor critic discount lamb H
     (zeros_like (out_actions (lambda_calculate_gae_foward split4 model actor critic discount lamb H
                                 expectile Robs Ra key0)))
     Robs Ra key0
   = out_q_rollout (lambda_calculate_gae_foward split4 model actor critic discount lamb H
                      expectile Robs Ra key0) \<and>
   multistep_calculate_gae_backward split4 model actor critic discount H
     (zeros_like (out_actions (multistep_calculate_gae_foward split4 model actor critic discount H
                                 expectile Robs Ra key0)))
     Robs Ra key0
   = out_q_rollout (multistep_calculate_gae_foward split4 model actor critic discount H
                      expectile Robs Ra key0)"
  by (simp add: lambda_calculate_gae_backward_def lambda_calculate_gae_foward_def
      multistep_calculate_gae_backward_def multistep_calculate_gae_foward_def Let_def
      backward_unroll_zeros_like)

section \<open>What a later perturbation can change\<close>

lemma backward_step_fields:
  "states (backward_step split4 model actor critic delta_a i t) =
     states t @ [fst (model (fst (split4 (last (keys t)))) (states t ! i) (actions t ! i))]"
  "rewards (backward_step split4 model actor critic delta_a i t) =
     rewards t @ [fst (snd (model (fst (split4 (last (keys t)))) (states t ! i) (actions t ! i)))]"
  "actions (backward_step split4 model actor critic delta_a i t) =
     actions t @ [actor (fst (model (fst (split4 (last (keys t)))) (states t ! i) (actions t ! i)))
                  + delta_a ! (i + 1)]"
  "mask_weights (backward_step split4 model actor critic delta_a i t) =
     mask_weights t @ [mask_weights t ! i *
       (1 - fst (snd (snd (model (fst (split4 (last (keys t)))) (states t ! i) (actions t ! i)))))]"
  "keys (backward_step split4 model actor critic delta_a i t) =
     keys t @ [snd (snd (snd (split4 (last (keys t)))))]"
  "q_values (backward_step split4 model actor critic delta_a i t) =
     q_values t @ [critic (fst (model (fst (split4 (last (keys t)))) (states t ! i) (actions t ! i)))
       (actor (fst (model (fst (split4 (last (keys t)))) (states t ! i) (actions t ! i)))
        + delta_a ! (i + 1))]"
  by (simp_all add: backward_step_def Let_def split: prod.split)

lemma backward_unroll_lengths:
  "length (states (backward_unroll split4 model actor critic H delta_a Robs Ra key0)) = Suc H \<and>
   length (rewards (backward_unroll split4 model actor critic H delta_a Robs Ra key0)) = H \<and>
   length (actions (backward_unroll split4 model actor critic H delta_a Robs Ra key0)) = Suc H \<and>
   length (mask_weights (backward_unroll split4 model actor critic H delta_a Robs Ra key0)) = Suc H \<and>
   length (keys (backward_unroll split4 model actor critic H delta_a Robs Ra key0)) = Suc H \<and>
   length (q_values (backward_unroll split4 model actor critic H delta_a Robs Ra key0)) = Suc H"
proof (induction H)
  case 0
  show ?case by (simp add: backward_unroll_0 backward_init_def)
next
  case (Suc H)
  then show ?case by (simp add: backward_unroll_Suc backward_step_fields)
qed

lemma backward_unroll_prefix:
  assumes "n \<le> H"
  shows "(\<forall>i\<le>n. states (backward_unroll split4 model actor critic H delta_a Robs Ra key0) ! i
              = states (backward_unroll split4 model actor critic n delta_a Robs Ra key0) ! i) \<and>
         (\<forall>i<n. rewards (backward_unroll split4 model actor critic H delta_a Robs Ra key0) ! i
              = rewards (backward_unroll split4 model actor critic n delta_a Robs Ra key0) ! i) \<and>
         (\<forall>i\<le>n. actions (backward_unroll split4 model actor critic H delta_a Robs Ra key0) ! i
              = actions (backward_unroll split4 model actor critic n delta_a Robs Ra key0) ! i) \<and>
         (\<forall>i\<le>n. mask_weights (backward_unroll split4 model actor critic H delta_a Robs Ra key0) ! i
              = mask_weights (backward_unroll split4 model actor critic n delta_a Robs Ra key0) ! i) \<and>
         (\<forall>i\<le>n. q_values (backward_unroll split4 model actor critic H delta_a Robs Ra key0) ! i
              = q_values (backward_unroll split4 model actor critic n delta_a Robs Ra key0) ! i)"
  using assms
proof (induction H)
  case 0
  then show ?case by simp
next
  case (Suc H)
  show ?case
  proof (cases "n = Suc H")
    case True
    then show ?thesis by simp
  next
    case False
    then have "n \<le> H" using Suc.prems by simp
    then show ?thesis
      using Suc.IH backward_unroll_lengths [of split4 model actor critic H delta_a Robs Ra key0]
      by (simp add: backward_unroll_Suc backward_step_fields nth_append)
  qed
qed

text \<open>Before step \<open>k\<close> the loop has not read \<open>delta_a[k]\<close>.\<close>

lemma backward_unroll_before_update:
  assumes "n < k"
  shows "backward_unroll split4 model actor critic n (delta_a[k := v]) Robs Ra key0 =
         backward_unroll split4 model actor critic n delta_a Robs Ra key0"
  using assms
proof (induction n)
  case 0
  then show ?case by (simp add: backward_unroll_0 backward_init_def)
next
  case (Suc n)
  then have "delta_a[k := v] ! (n + 1) = delta_a ! (n + 1)" by simp
  then show ?case using Suc by (simp add: backward_unroll_Suc backward_step_def)
qed

text \<open>At step \<open>k\<close> itself only the action and its critic value see \<open>delta_a[k]\<close>.\<close>

lemma backward_unroll_at_update:
  "states (backward_unroll split4 model actor critic k (delta_a[k := v]) Robs Ra key0)
     = states (backward_unroll split4 model actor critic k delta_a Robs Ra key0) \<and>
   rewards (backward_unroll split4 model actor critic k (delta_a[k := v]) Robs Ra key0)
     = rewards (backward_unroll split4 model actor critic k delta_a Robs Ra key0) \<and>
   mask_weights (backward_unroll split4 model actor critic k (delta_a[k := v]) Robs Ra key0)
     = mask_weights (backward_unroll split4 model actor critic k delta_a Robs Ra key0)"
proof (cases k)
  case 0
  then show ?thesis by (simp add: backward_unroll_0 backward_init_def)
next
  case (Suc n)
  then have "backward_unroll split4 model actor critic n (delta_a[k := v]) Robs Ra key0 =
             backward_unroll split4 model actor critic n delta_a Robs Ra key0"
    by (simp add: backward_unroll_before_update)
  then show ?thesis using Suc by (simp add: backward_unroll_Suc backward_step_fields)
qed

text \<open>
  Claim C4, as amended. Varying only \<open>delta_a[k]\<close> leaves the part of the imagined
  trajectory that precedes the perturbed action unchanged: the states and alive-masks of
  the steps \<open>j \<le> k\<close>, and the actions, rewards and critic values of the steps \<open>j < k\<close>.
  The returns \<open>q_rollout[j]\<close> of earlier steps are not among them: they accumulate the
  rewards and critic values of the steps from \<open>k\<close> on.
\<close>

theorem perturbation_leaves_earlier_steps_unchanged:
  assumes "length delta_a = H + 1" and "k \<le> H"
  shows "(\<forall>j\<le>k.
            states (backward_unroll split4 model actor critic H (delta_a[k := v]) Robs Ra key0) ! j
            = states (backward_unroll split4 model actor critic H delta_a Robs Ra key0) ! j \<and>
            mask_weights (backward_unroll split4 model actor critic H (delta_a[k := v]) Robs Ra key0) ! j
            = mask_weights (backward_unroll split4 model actor critic H delta_a Robs Ra key0) ! j) \<and>
         (\<forall>j<k.
            actions (backward_unroll split4 model actor critic H (delta_a[k := v]) Robs Ra key0) ! j
            = actions (backward_unroll split4 model actor critic H delta_a Robs Ra key0) ! j \<and>
            rewards (backward_unroll split4 model actor critic H (delta_a[k := v]) Robs Ra key0) ! j
            = rewards (backward_unroll split4 model actor critic H delta_a Robs Ra key0) ! j \<and>
            q_values (backward_unroll split4 model actor critic H (delta_a[k := v]) Robs Ra key0) ! j
            = q_values (backward_unroll split4 model actor critic H delta_a Robs Ra key0) ! j)"
proof -
  let ?u = "\<lambda>n d. backward_unroll split4 model actor critic n d Robs Ra key0"
  let ?d' = "delta_a[k := v]"
  have at: "states (?u k ?d') = states (?u k delta_a)"
    "rewards (?u k ?d') = rewards (?u k delta_a)"
    "mask_weights (?u k ?d') = mask_weights (?u k delta_a)"
    using backward_unroll_at_update [of split4 model actor critic k delta_a v Robs Ra key0]
    by simp_all
  have pk: "\<forall>j\<le>k. states (?u H ?d') ! j = states (?u k ?d') ! j"
    "\<forall>j<k. rewards (?u H ?d') ! j = rewards (?u k ?d') ! j"
    "\<forall>j\<le>k. mask_weights (?u H ?d') ! j = mask_weights (?u k ?d') ! j"
    using backward_unroll_prefix [OF assms(2), of split4 model actor critic ?d' Robs Ra key0]
    by simp_all
  have pk0: "\<forall>j\<le>k. states (?u H delta_a) ! j = states (?u k delta_a) ! j"
    "\<forall>j<k. rewards (?u H delta_a) ! j = rewards (?u k delta_a) ! j"
    "\<forall>j\<le>k. mask_weights (?u H delta_a) ! j = mask_weights (?u k delta_a) ! j"
    using backward_unroll_prefix [OF assms(2), of split4 model actor critic delta_a Robs Ra key0]
    by simp_all
  have early: "\<forall>j<k. actions (?u H ?d') ! j = actions (?u H delta_a) ! j \<and>
                      q_values (?u H ?d') ! j = q_values (?u H delta_a) ! j"
  proof (intro allI impI)
    fix j assume jk: "j < k"
    then have jH: "j \<le> H" using assms(2) by simp
    have same: "?u j ?d' = ?u j delta_a" using jk by (rule backward_unroll_before_update)
    have "actions (?u H ?d') ! j = actions (?u j ?d') ! j"
         "q_values (?u H ?d') ! j = q_values (?u j ?d') ! j"
      using backward_unroll_prefix [OF jH, of split4 model actor critic ?d' Robs Ra key0]
      by simp_all
    moreover have "actions (?u H delta_a) ! j = actions (?u j delta_a) ! j"
         "q_values (?u H delta_a) ! j = q_values (?u j delta_a) ! j"
      using backward_unroll_prefix [OF jH, of split4 model actor critic delta_a Robs Ra key0]
      by simp_all
    ultimately show "actions (?u H ?d') ! j = actions (?u H delta_a) ! j \<and>
                     q_values (?u H ?d') ! j = q_values (?u H delta_a) ! j"
      using same by simp
  qed
  show ?thesis using at pk pk0 early by simp
qed

lemma toy_unroll_1:
  "backward_unroll toy_split4 (toy_model 0) toy_actor toy_critic (Suc 0) [0, d] 0 0 0 =
     \<lparr> states = [0, 0], rewards = [0], actions = [0, d], mask_weights = [1, 1],
       keys = [0, 4], q_values = [0, d] \<rparr>"
  by (simp add: backward_unroll_def backward_init_def backward_step_def toy_split4_def
      toy_model_def toy_actor_def toy_critic_def)

text \<open>
  Claim C4 as stated fails. With horizon 1, changing only \<open>delta_a[1]\<close> from 0 to 1
  changes \<open>q_rollout[0]\<close>, from 0 to 1/2 in the lambda-weighted variant and from 0 to 1
  in the multi-step variant.
\<close>

theorem earlier_return_depends_on_later_perturbation:
  "lambda_calculate_gae_backward toy_split4 (toy_model 0) toy_actor toy_critic 1 1 1
     ([0, 0][1 := 1]) 0 0 0 ! 0
   \<noteq> lambda_calculate_gae_backward toy_split4 (toy_model 0) toy_actor toy_critic 1 1 1
     [0, 0] 0 0 0 ! 0 \<and>
   multistep_calculate_gae_backward toy_split4 (toy_model 0) toy_actor toy_critic 1 1
     ([0, 0][1 := 1]) 0 0 0 ! 0
   \<noteq> multistep_calculate_gae_backward toy_split4 (toy_model 0) toy_actor toy_critic 1 1
     [0, 0] 0 0 0 ! 0"
  by (simp add: lambda_calculate_gae_backward_def multistep_calculate_gae_backward_def
      toy_unroll_1 lambda_returns_def lambda_loop_def lambda_step_def
      multistep_returns_def multistep_loop_def multistep_step_def)

theorem perturbation_leaves_earlier_steps_unchanged_witness:
  "length [0, 0 :: real] = 1 + 1 \<and> (1::nat) \<le> 1 \<and>
   states (backward_unroll toy_split4 (toy_model 0) toy_actor toy_critic 1 ([0, 0][1 := 1]) 0 0 0) ! 1
   = states (backward_unroll toy_split4 (toy_model 0) toy_actor toy_critic 1 [0, 0] 0 0 0) ! 1 \<and>
   q_values (backward_unroll toy_split4 (toy_model 0) toy_actor toy_critic 1 ([0, 0][1 := 1]) 0 0 0) ! 0
   = q_values (backward_unroll toy_split4 (toy_model 0) toy_actor toy_critic 1 [0, 0] 0 0 0) ! 0"
  using perturbation_leaves_earlier_steps_unchanged
          [of "[0, 0]" 1 1 toy_split4 "toy_model 0" toy_actor toy_critic 1 0 0 0]
  by simp

section \<open>The actor loss\<close>

lemma sum_list_concat_map: "sum_list (concat xss) = sum_list (map sum_list xss)"
  by (induction xss) simp_all

lemma shape2_concat_length: "shape2 n B m \<Longrightarrow> length (concat m) = n * B"
proof -
  assume sh: "shape2 n B m"
  then have "map length m = replicate n B"
    by (auto simp: shape2_def intro!: nth_equalityI)
  then show ?thesis by (simp add: length_concat sum_list_replicate)
qed

lemma sum_list_upt: "sum_list (map f [0..<n]) = (\<Sum>i<n. f i)"
  by (simp add: interv_sum_list_conv_sum_set_nat atLeast0LessThan)

lemma sum_list_map_nth: "sum_list (map f xs) = (\<Sum>i<length xs. f (xs ! i))"
proof -
  have "map f xs = map (\<lambda>i. f (xs ! i)) [0..<length xs]"
    by (rule nth_equalityI) simp_all
  then show ?thesis using sum_list_upt [of "\<lambda>i. f (xs ! i)" "length xs"] by simp
qed

lemma transpose_rect:
  assumes "shape2 B A row" and "0 < B"
  shows "transpose row = map (\<lambda>a. map (\<lambda>b. row ! b ! a) [0..<B]) [0..<A]"
proof -
  have len: "length row = B" and rect: "\<And>i. i < length row \<Longrightarrow> length (row ! i) = A"
    using assms(1) by (simp_all add: shape2_def)
  have "row = [] \<Longrightarrow> A = 0" using len assms(2) by simp
  from transpose_rectangle [OF this rect] show ?thesis using len by simp
qed

lemma row_mean_sum:
  assumes "shape2 B A row" and "0 < B"
  shows "sum_list (map (\<lambda>col. sum_list col / real (length row)) (transpose row)) =
         (\<Sum>a<A. (\<Sum>b<B. row ! b ! a) / real B)"
proof -
  have len: "length row = B" using assms(1) by (simp add: shape2_def)
  show ?thesis
    by (simp add: transpose_rect [OF assms] len comp_def sum_list_upt)
qed

lemma shape2_nth: "shape2 n B m \<Longrightarrow> h < n \<Longrightarrow> length (m ! h) = B"
  by (simp add: shape2_def)

lemma shape3_nth: "shape3 n B A x \<Longrightarrow> h < n \<Longrightarrow> shape2 B A (x ! h)"
  by (simp add: shape3_def)

lemma shape2_iff_nth: "shape2 n B m \<longleftrightarrow> length m = n \<and> (\<forall>h<n. length (m ! h) = B)"
  by (auto simp: shape2_def all_set_conv_all_nth)

lemma shape3_iff_nth: "shape3 n B A x \<longleftrightarrow> length x = n \<and> (\<forall>h<n. shape2 B A (x ! h))"
  by (auto simp: shape3_def all_set_conv_all_nth)

lemma product_nth:
  assumes "shape2 n B ep" and "shape3 n B A g" and "shape3 n B A p"
    and "h < n" and "b < B" and "a < A"
  shows "mul3 (broadcast_mul ep g) p ! h ! b ! a = ep ! h ! b * g ! h ! b ! a * p ! h ! b ! a"
proof -
  have l1: "length ep = n" "length g = n" "length p = n"
    using assms(1-3) by (simp_all add: shape2_def shape3_def)
  have l2: "length (ep ! h) = B" "length (g ! h) = B" "length (p ! h) = B"
    using assms(1-4) by (simp_all add: shape2_iff_nth shape3_iff_nth)
  have l3: "length (g ! h ! b) = A" "length (p ! h ! b) = A"
    using assms(2-5) by (simp_all add: shape2_iff_nth shape3_iff_nth)
  show ?thesis
    using assms(4-6) l1 l2 l3 by (simp add: mul3_def broadcast_mul_def)
qed

lemma product_shape:
  assumes "shape2 n B ep" and "shape3 n B A g" and "shape3 n B A p"
  shows "shape3 n B A (mul3 (broadcast_mul ep g) p)"
proof -
  have l1: "length ep = n" "length g = n" "length p = n"
    using assms by (simp_all add: shape2_def shape3_def)
  have row: "shape2 B A (mul3 (broadcast_mul ep g) p ! h)" if h: "h < n" for h
  proof -
    have l2: "length (ep ! h) = B" "length (g ! h) = B" "length (p ! h) = B"
      using assms h by (simp_all add: shape2_iff_nth shape3_iff_nth)
    have l3: "\<forall>b<B. length (g ! h ! b) = A \<and> length (p ! h ! b) = A"
      using assms h by (simp add: shape2_iff_nth shape3_iff_nth)
    show ?thesis
      using h l1 l2 l3 by (simp add: shape2_iff_nth mul3_def broadcast_mul_def)
  qed
  have "length (mul3 (broadcast_mul ep g) p) = n"
    using l1 by (simp add: mul3_def broadcast_mul_def)
  then show ?thesis using row by (simp add: shape3_iff_nth)
qed

lemma sum_list_rows:
  assumes "shape2 B A row"
  shows "sum_list (map sum_list row) = (\<Sum>b<B. \<Sum>a<A. row ! b ! a)"
proof -
  have len: "length row = B" and r: "\<forall>b<B. length (row ! b) = A"
    using assms by (simp_all add: shape2_iff_nth)
  have "sum_list (map sum_list row) = (\<Sum>b<B. sum_list (row ! b))"
    using sum_list_map_nth [of sum_list row] len by simp
  also have "\<dots> = (\<Sum>b<B. \<Sum>a<A. row ! b ! a)"
  proof (rule sum.cong [OF refl])
    fix b assume "b \<in> {..<B}"
    then have "length (row ! b) = A" using r by simp
    then show "sum_list (row ! b) = (\<Sum>a<A. row ! b ! a)"
      using sum_list_map_nth [of "\<lambda>x. x" "row ! b"] by simp
  qed
  finally show ?thesis .
qed

lemma spec_mean_sum:
  assumes "shape3 n B A x"
  shows "mean_over_horizon_and_batch (map (map sum_list) x) =
         (\<Sum>h<n. \<Sum>b<B. \<Sum>a<A. x ! h ! b ! a) / real (n * B)"
proof -
  have len: "length x = n" and rows: "\<forall>h<n. shape2 B A (x ! h)"
    using assms by (simp_all add: shape3_iff_nth)
  have sh: "shape2 n B (map (map sum_list) x)"
    using len rows by (simp add: shape2_iff_nth)
  have "sum_list (concat (map (map sum_list) x)) = sum_list (map (\<lambda>row. sum_list (map sum_list row)) x)"
    by (simp add: sum_list_concat_map comp_def)
  also have "\<dots> = (\<Sum>h<n. sum_list (map sum_list (x ! h)))"
    using sum_list_map_nth [of "\<lambda>row. sum_list (map sum_list row)" x] len by simp
  also have "\<dots> = (\<Sum>h<n. \<Sum>b<B. \<Sum>a<A. x ! h ! b ! a)"
  proof (rule sum.cong [OF refl])
    fix h assume "h \<in> {..<n}"
    then have "shape2 B A (x ! h)" using rows by simp
    then show "sum_list (map sum_list (x ! h)) = (\<Sum>b<B. \<Sum>a<A. x ! h ! b ! a)"
      by (rule sum_list_rows)
  qed
  finally show ?thesis
    by (simp only: mean_over_horizon_and_batch_def shape2_concat_length [OF sh])
qed

lemma loss_times_horizon:
  assumes "shape2 n B ep_weights" and "shape3 n B A grad_gae" and "shape3 n B A actions_grad"
    and "0 < B" and "0 < n"
  shows "actor_loss ep_weights grad_gae actions_grad =
         real n * spec_actor_loss ep_weights grad_gae actions_grad"
proof -
  let ?P = "mul3 (broadcast_mul ep_weights grad_gae) actions_grad"
  have sh: "shape3 n B A ?P" using assms(1-3) by (rule product_shape)
  then have len: "length ?P = n" by (simp add: shape3_def)
  let ?S = "\<Sum>h<n. \<Sum>b<B. \<Sum>a<A. ?P ! h ! b ! a"
  have "sum_all (mean_axis1 ?P) =
        (\<Sum>h<n. sum_list (map (\<lambda>col. sum_list col / real (length (?P ! h))) (transpose (?P ! h))))"
    using sum_list_map_nth [of "\<lambda>row. sum_list (map (\<lambda>col. sum_list col / real (length row)) (transpose row))" ?P]
    by (simp add: sum_all_def mean_axis1_def comp_def len)
  also have "\<dots> = (\<Sum>h<n. \<Sum>a<A. (\<Sum>b<B. ?P ! h ! b ! a) / real B)"
    using row_mean_sum [OF shape3_nth [OF sh] assms(4)] by simp
  also have "\<dots> = (\<Sum>h<n. (\<Sum>a<A. \<Sum>b<B. ?P ! h ! b ! a) / real B)"
    by (simp add: sum_divide_distrib)
  also have "\<dots> = (\<Sum>h<n. (\<Sum>b<B. \<Sum>a<A. ?P ! h ! b ! a) / real B)"
  proof (rule sum.cong [OF refl])
    fix h
    have "(\<Sum>a<A. \<Sum>b<B. ?P ! h ! b ! a) = (\<Sum>b<B. \<Sum>a<A. ?P ! h ! b ! a)"
      by (rule sum.swap)
    then show "(\<Sum>a<A. \<Sum>b<B. ?P ! h ! b ! a) / real B
               = (\<Sum>b<B. \<Sum>a<A. ?P ! h ! b ! a) / real B"
      by (simp only:)
  qed
  also have "\<dots> = ?S / real B" by (simp add: sum_divide_distrib)
  finally have code: "sum_all (mean_axis1 ?P) = ?S / real B" .
  have spec: "mean_over_horizon_and_batch (map (map sum_list) ?P) = ?S / real (n * B)"
    using sh by (rule spec_mean_sum)
  have "real n * (?S / real (n * B)) = ?S / real B"
    using assms(4,5) by simp
  then show ?thesis
    by (simp only: actor_loss_def spec_actor_loss_def code spec mult_minus_right)
qed

text \<open>
  Claim C3, as amended. For tensors of shapes \<open>(n, B)\<close>, \<open>(n, B, A)\<close>, \<open>(n, B, A)\<close>
  with a batch \<open>B > 0\<close>, the actor loss is minus the sum, over the horizon steps and the
  components of the action, of the mean over the batch of
  weight * value gradient * policy action: the mean is taken over the batch only. With
  \<open>n > 0\<close> horizon steps that is \<open>n\<close> times the loss the specification words, the
  negative mean over horizon and batch.
\<close>

theorem actor_loss_sums_over_horizon:
  assumes "shape2 n B ep_weights" and "shape3 n B A grad_gae" and "shape3 n B A actions_grad"
    and "0 < B" and "0 < n"
  shows "actor_loss ep_weights grad_gae actions_grad =
         - (\<Sum>h<n. \<Sum>a<A.
              (\<Sum>b<B. ep_weights ! h ! b * grad_gae ! h ! b ! a * actions_grad ! h ! b ! a)
              / real B) \<and>
         actor_loss ep_weights grad_gae actions_grad =
         real n * spec_actor_loss ep_weights grad_gae actions_grad"
proof -
  let ?P = "mul3 (broadcast_mul ep_weights grad_gae) actions_grad"
  have sh: "shape3 n B A ?P" using assms(1-3) by (rule product_shape)
  then have len: "length ?P = n" by (simp add: shape3_def)
  have "sum_all (mean_axis1 ?P) =
        (\<Sum>h<n. sum_list (map (\<lambda>col. sum_list col / real (length (?P ! h))) (transpose (?P ! h))))"
    using sum_list_map_nth [of "\<lambda>row. sum_list (map (\<lambda>col. sum_list col / real (length row)) (transpose row))" ?P]
    by (simp add: sum_all_def mean_axis1_def comp_def len)
  also have "\<dots> = (\<Sum>h<n. \<Sum>a<A. (\<Sum>b<B. ?P ! h ! b ! a) / real B)"
    using row_mean_sum [OF shape3_nth [OF sh] assms(4)] by simp
  also have "\<dots> = (\<Sum>h<n. \<Sum>a<A.
              (\<Sum>b<B. ep_weights ! h ! b * grad_gae ! h ! b ! a * actions_grad ! h ! b ! a)
              / real B)"
    using product_nth [OF assms(1-3)] by simp
  finally have "actor_loss ep_weights grad_gae actions_grad =
         - (\<Sum>h<n. \<Sum>a<A.
              (\<Sum>b<B. ep_weights ! h ! b * grad_gae ! h ! b ! a * actions_grad ! h ! b ! a)
              / real B)"
    by (simp add: actor_loss_def)
  then show ?thesis using loss_times_horizon [OF assms] by simp
qed

text \<open>
  Claim C3 as stated fails. With two horizon steps, one sample and one action
  component the loss of the code is \<open>-17/5\<close>, twice the negative mean over horizon and
  batch, \<open>-17/10\<close>.
\<close>

theorem actor_loss_is_not_mean_over_horizon:
  "actor_loss [[7/10], [1/2]] [[[2]], [[4]]] [[[1]], [[1]]] = - (17/5) \<and>
   spec_actor_loss [[7/10], [1/2]] [[[2]], [[4]]] [[[1]], [[1]]] = - (17/10) \<and>
   actor_loss [[7/10], [1/2]] [[[2]], [[4]]] [[[1]], [[1]]]
     \<noteq> spec_actor_loss [[7/10], [1/2]] [[[2]], [[4]]] [[[1]], [[1]]]"
  by (simp add: actor_loss_def spec_actor_loss_def mean_over_horizon_and_batch_def sum_all_def
      mean_axis1_def mul3_def broadcast_mul_def)

theorem actor_loss_sums_over_horizon_witness:
  "shape2 2 1 [[7/10], [1/2 :: real]] \<and> shape3 2 1 1 [[[2]], [[4 :: real]]] \<and>
   shape3 2 1 1 [[[1]], [[1 :: real]]] \<and> (0::nat) < 1 \<and> (0::nat) < 2 \<and>
   actor_loss [[7/10], [1/2]] [[[2]], [[4]]] [[[1]], [[1]]]
     = - (7/10 * 2 * 1 / 1 + 1/2 * 4 * 1 / 1) \<and>
   actor_loss [[7/10], [1/2]] [[[2]], [[4]]] [[[1]], [[1]]]
     = 2 * spec_actor_loss [[7/10], [1/2]] [[[2]], [[4]]] [[[1]], [[1]]]"
  using actor_loss_sums_over_horizon [of 2 1 "[[7/10], [1/2]]" 1 "[[[2]], [[4]]]" "[[[1]], [[1]]]"]
  by (simp add: shape2_def shape3_def eval_nat_numeral)

section \<open>The mean alive-mask as a denominator\<close>





















section \<open>Runs on the small environment\<close>

theorem alive_mask_invariant_witness:
  "terminal_flag toy_split4 (toy_model 1)
     (foward_unroll toy_split4 (toy_model 1) toy_actor toy_critic 2 1 2 0) 0 = 1 \<and>
   terminal_flag toy_split4 (toy_model 1)
     (foward_unroll toy_split4 (toy_model 1) toy_actor toy_critic 2 1 2 0) 1 = 1 \<and>
   mask_weights (foward_unroll toy_split4 (toy_model 1) toy_actor toy_critic 2 1 2 0) ! 0 = 1 \<and>
   mask_weights (foward_unroll toy_split4 (toy_model 1) toy_actor toy_critic 2 1 2 0) ! 1 = 0 \<and>
   mask_weights (foward_unroll toy_split4 (toy_model 1) toy_actor toy_critic 2 1 2 0) ! 2 = 0"
  using alive_mask_invariant [of 2 toy_split4 "toy_model 1" toy_actor toy_critic 1 2 0]
  by (simp add: toy_terminal_flag eval_nat_numeral toy_foward_unroll_2)

theorem advantage_weights_witness:
  "out_ep_weights (lambda_calculate_gae_foward toy_split4 (toy_model 0) toy_actor toy_critic
                     1 1 1 (7/10) 1 2 0) ! 0 = 7/10 \<and>
   out_ep_weights (lambda_calculate_gae_foward toy_split4 (toy_model 0) toy_actor toy_critic
                     1 1 1 (7/10) 1 2 0) ! 1 = 1/2 \<and>
   out_ep_weights (multistep_calculate_gae_foward toy_split4 (toy_model 1) toy_actor toy_critic
                     1 1 (7/10) 1 2 0) ! 0 = 1 - 7/10 \<and>
   out_ep_weights (multistep_calculate_gae_foward toy_split4 (toy_model 1) toy_actor toy_critic
                     1 1 (7/10) 1 2 0) ! 1 = 1/2"
  using advantage_weights [of 1 toy_split4 "toy_model 0" toy_actor toy_critic 1 1 "7/10" 1 2 0]
    advantage_weights [of 1 toy_split4 "toy_model 1" toy_actor toy_critic 1 1 "7/10" 1 2 0]
  by (simp add: toy_lambda_foward_1 toy_multistep_foward_1)

theorem zero_perturbation_replays_foward_witness:
  "lambda_calculate_gae_backward toy_split4 (toy_model 0) toy_actor toy_critic 1 1 1
     (zeros_like [2, 3]) 1 2 0 = [11/2, 6] \<and>
   multistep_calculate_gae_backward toy_split4 (toy_model 0) toy_actor toy_critic 1 1
     (zeros_like [2, 3]) 1 2 0 = [8, 6]"
  using zero_perturbation_replays_foward
          [of toy_split4 "toy_model 0" toy_actor toy_critic 1 1 1 "7/10" 1 2 0]
  by (simp add: toy_lambda_foward_1 toy_multistep_foward_1)



end
